theory Spec2Isabelle
  imports Main "HOL-Library.Multiset" "HOL-Library.Sublist"
    "HOL-Library.Char_ord" "HOL-Library.List_Lexorder"
begin

section \<open>The element tree of \<^verbatim>\<open>xml.etree.ElementTree\<close>\<close>

text \<open>
  An \<^verbatim>\<open>ET.Element\<close> has a tag, an attribute dictionary (insertion ordered, so an
  association list read with \<open>map_of\<close>), the optional strings \<^verbatim>\<open>text\<close> and
  \<^verbatim>\<open>tail\<close> (\<^verbatim>\<open>None\<close> when the parser saw no character data there) and the list of
  its children. The selectors of the two string fields are called \<open>etext\<close> and
  \<open>etail\<close>. Strings are lists of characters ordered by character code, position by
  position, a proper prefix being smaller: the order Python's \<^verbatim>\<open>str\<close> comparison
  uses on code points.
\<close>

datatype Element =
  Element (tag: string) (attrib: "(string \<times> string) list")
    (etext: "string option") (etail: "string option") (children: "Element list")

text \<open>\<^verbatim>\<open>element.get(key)\<close> is \<^verbatim>\<open>None\<close> for a missing key;
  \<^verbatim>\<open>element.get(key, default)\<close> is the default then.\<close>

definition get :: "Element \<Rightarrow> string \<Rightarrow> string option" where
  "get element key = map_of (attrib element) key"

definition get_default :: "Element \<Rightarrow> string \<Rightarrow> string \<Rightarrow> string" where
  "get_default element key dflt =
     (case map_of (attrib element) key of None \<Rightarrow> dflt | Some v \<Rightarrow> v)"

text \<open>Python's truth value of an optional string: \<^verbatim>\<open>None\<close> and \<^verbatim>\<open>""\<close> are false.\<close>

fun truthy :: "string option \<Rightarrow> bool" where
  "truthy None = False"
| "truthy (Some s) = (s \<noteq> [])"

section \<open>The sort key\<close>

text \<open>\<^verbatim>\<open>return element.get('name', element.get('GUID', ''))\<close>\<close>

definition sort_key_for_element :: "Element \<Rightarrow> string" where
  "sort_key_for_element element =
     get_default element ''name'' (get_default element ''GUID'' '''')"

text \<open>
  The key as the specification words it: the value of \<^verbatim>\<open>name\<close> if present and
  non-empty, otherwise the value of \<^verbatim>\<open>GUID\<close> if present and non-empty, otherwise
  the empty string.
\<close>

definition spec_sort_key :: "Element \<Rightarrow> string" where
  "spec_sort_key element =
     (if truthy (get element ''name'') then the (get element ''name'')
      else if truthy (get element ''GUID'') then the (get element ''GUID'')
      else '''')"

section \<open>Normalization\<close>

definition sortable_tags :: "string set" where
  "sortable_tags =
     {''PropertyValue'', ''ToolsOptionsCategory'', ''ToolsOptionsSubCategory'', ''Category''}"

text \<open>The test of the partition loop:
  \<^verbatim>\<open>child.tag in sortable_tags and (child.get('name') or child.get('GUID'))\<close>.\<close>

definition is_sortable :: "Element \<Rightarrow> bool" where
  "is_sortable child \<longleftrightarrow>
     tag child \<in> sortable_tags \<and> (truthy (get child ''name'') \<or> truthy (get child ''GUID''))"

text \<open>
  The children the specification calls "other": the tag is not a sortable tag, or
  \<^verbatim>\<open>name\<close> and \<^verbatim>\<open>GUID\<close> are both absent or empty.
\<close>

definition is_other :: "Element \<Rightarrow> bool" where
  "is_other child \<longleftrightarrow>
     tag child \<notin> sortable_tags \<or>
     (get child ''name'' \<in> {None, Some []} \<and> get child ''GUID'' \<in> {None, Some []})"

text \<open>
  Lines 37 to 60 of \<^verbatim>\<open>sort_children_recursively\<close>: the children are split, in
  their order, into the sortable ones and the others; the sortable ones are sorted by
  their key with Python's \<^verbatim>\<open>list.sort\<close>, a stable sort, which \<open>sort_key\<close> is as
  well; every child is removed and the others, then the sorted ones, are appended.
\<close>

definition reorder_children :: "Element list \<Rightarrow> Element list" where
  "reorder_children children_list =
     (let (sortable_children, other_children) = partition is_sortable children_list;
          sortable_children = sort_key sort_key_for_element sortable_children
      in other_children @ sortable_children)"

text \<open>The function mutates the tree in place; the model returns the tree it leaves.
  The recursion runs over the children in their new order (lines 63 and 64). The
  interpreter's limit on the depth of recursion is not modelled.\<close>

function sort_children_recursively :: "Element \<Rightarrow> Element" where
  "sort_children_recursively (Element tg at tx ta cs) =
     Element tg at tx ta (map sort_children_recursively (reorder_children cs))"
  by pat_completeness auto
termination
proof (relation "measure size")
  show "wf (measure (size :: Element \<Rightarrow> nat))" by simp
next
  fix tg at tx ta cs x
  assume "x \<in> set (reorder_children cs)"
  then have "x \<in> set cs" by (auto simp: reorder_children_def)
  then have "size x \<le> size_list size cs" by (rule size_list_estimation') simp
  then show "(x, Element tg at tx ta cs) \<in> measure size" by simp
qed

text \<open>Every node of a tree, the root first, as \<^verbatim>\<open>element.iter()\<close> walks it.\<close>

fun nodes :: "Element \<Rightarrow> Element list" where
  "nodes (Element tg at tx ta cs) = Element tg at tx ta cs # concat (map nodes cs)"

text \<open>The fields a node carries by itself: everything but its children.\<close>

definition label :: "Element \<Rightarrow> string \<times> (string \<times> string) list \<times> string option \<times> string option" where
  "label n = (tag n, attrib n, etext n, etail n)"

text \<open>The parent and child pairs of a tree, each node given by its own fields.\<close>

definition edges :: "Element \<Rightarrow> ((string \<times> (string \<times> string) list \<times> string option \<times> string option) \<times>
    (string \<times> (string \<times> string) list \<times> string option \<times> string option)) list" where
  "edges t = concat (map (\<lambda>p. map (\<lambda>c. (label p, label c)) (children p)) (nodes t))"

section \<open>Formatting\<close>

text \<open>
  \<^verbatim>\<open>str.strip()\<close> removes the leading and trailing characters for which
  \<^verbatim>\<open>str.isspace\<close> holds. Among the character codes below 256 these are 9 to 13,
  28 to 32, 133 and 160.
\<close>

definition is_space :: "char \<Rightarrow> bool" where
  "is_space c \<longleftrightarrow> (of_char c :: nat) \<in> {9, 10, 11, 12, 13, 28, 29, 30, 31, 32, 133, 160}"

definition strip :: "string \<Rightarrow> string" where
  "strip s = rev (dropWhile is_space (rev (dropWhile is_space s)))"

text \<open>The guard of every assignment of \<^verbatim>\<open>indent_xml\<close>:
  \<^verbatim>\<open>not x or not x.strip()\<close>, on a field that is \<^verbatim>\<open>None\<close> or a string.\<close>

fun blank :: "string option \<Rightarrow> bool" where
  "blank None = True"
| "blank (Some s) = (s = [] \<or> strip s = [])"

text \<open>\<^verbatim>\<open>indent_str = "\t" * level\<close>\<close>

definition indent_str :: "nat \<Rightarrow> string" where
  "indent_str level = replicate level (CHR 0x09)"

fun set_tail :: "Element \<Rightarrow> string option \<Rightarrow> Element" where
  "set_tail (Element tg at tx ta cs) v = Element tg at tx v cs"

text \<open>
  \<^verbatim>\<open>indent_xml\<close> mutates the element and its descendants; the model returns the
  element it leaves. After the loop over the children the variable \<^verbatim>\<open>child\<close> is the
  last child, whose tail is tested and set once more.
\<close>

fun indent_xml :: "Element \<Rightarrow> nat \<Rightarrow> Element" where
  "indent_xml (Element tg at tx ta cs) level =
     (if cs \<noteq> [] then
        let tx' = (if blank tx then Some ([CHR 0x0A] @ indent_str level @ [CHR 0x09]) else tx);
            ta' = (if blank ta then Some ([CHR 0x0A] @ indent_str level) else ta);
            cs' = map (\<lambda>child. indent_xml child (level + 1)) cs;
            child = last cs';
            child' = (if blank (etail child) then set_tail child (Some ([CHR 0x0A] @ indent_str level))
                      else child)
        in Element tg at tx' ta' (butlast cs' @ [child'])
      else if level \<noteq> 0 \<and> blank ta then Element tg at tx (Some ([CHR 0x0A] @ indent_str level)) cs
      else Element tg at tx ta cs)"

text \<open>
  Modelled from the spec: the serialization primitive
  \<^verbatim>\<open>ET.tostring(root, encoding='unicode')\<close>, which belongs to Python's standard
  library and is not part of the sources. Section 4.2 of the specification:
  serialization emits the tag, the attributes in their stored order, the children in
  their order, and text and tail verbatim, and it emits no XML declaration.
\<close>

definition attributes_text :: "(string \<times> string) list \<Rightarrow> string" where
  "attributes_text at = concat (map (\<lambda>(k, v). '' '' @ k @ ''='' @ [CHR 0x22] @ v @ [CHR 0x22]) at)"

fun verbatim :: "string option \<Rightarrow> string" where
  "verbatim None = []"
| "verbatim (Some s) = s"

fun tostring :: "Element \<Rightarrow> string" where
  "tostring (Element tg at tx ta cs) =
     ''<'' @ tg @ attributes_text at @
     (if cs = [] \<and> \<not> truthy tx then '' />''
      else ''>'' @ verbatim tx @ concat (map tostring cs) @ ''</'' @ tg @ ''>'') @
     verbatim ta"

text \<open>\<^verbatim>\<open>indent_xml(root)\<close>, then \<^verbatim>\<open>return ET.tostring(root, encoding='unicode')\<close>.\<close>

definition format_xml_output :: "Element \<Rightarrow> string" where
  "format_xml_output root = tostring (indent_xml root 0)"

text \<open>
  The tree with every text and tail field that is empty or only whitespace erased:
  what formatting must leave as it is.
\<close>

fun keep :: "string option \<Rightarrow> string option" where
  "keep x = (if blank x then None else x)"

fun content :: "Element \<Rightarrow> Element" where
  "content (Element tg at tx ta cs) = Element tg at (keep tx) (keep ta) (map content cs)"

section \<open>Processing a file\<close>

text \<open>
  The file system and the parser are the environment of \<^verbatim>\<open>process_settings_file\<close>.
  \<^verbatim>\<open>ET.parse(input_file)\<close> returns a tree or raises \<^verbatim>\<open>ET.ParseError\<close> with the
  parser's diagnostic, \<^verbatim>\<open>FileNotFoundError\<close>, or another exception;
  opening the output file and writing to it succeeds or raises. Each call of the
  environment and each \<^verbatim>\<open>print\<close> is an event of the run, in order; the result is
  the events and the exit status of \<^verbatim>\<open>sys.exit\<close>, \<open>None\<close> when the function
  returns. The call of \<^verbatim>\<open>ET.register_namespace\<close> before parsing changes the
  serializer's table of prefixes and raises nothing for the empty prefix; it is no
  event.
\<close>

datatype parse_outcome =
  Parsed Element | ParseError string | FileNotFoundError | OtherException string

datatype write_outcome = Written | WriteFileNotFoundError | WriteException string

datatype event =
  Parse string | Write "string option" string | PrintStdout string | PrintStderr string

text \<open>\<^verbatim>\<open>str\<close> of the optional output path inside the f-string.\<close>

fun str_of_path :: "string option \<Rightarrow> string" where
  "str_of_path None = ''None''"
| "str_of_path (Some p) = p"

definition process_settings_file ::
  "(string \<Rightarrow> parse_outcome) \<Rightarrow> (string option \<Rightarrow> string \<Rightarrow> write_outcome) \<Rightarrow>
     string \<Rightarrow> string option \<Rightarrow> event list \<times> nat option" where
  "process_settings_file parse write input_file output_file =
     (case parse input_file of
        Parsed root \<Rightarrow>
          (let root = sort_children_recursively root;
               xml_output = format_xml_output root
           in case write output_file xml_output of
                Written \<Rightarrow>
                  ([Parse input_file, Write output_file xml_output,
                    PrintStdout (''Sorted settings written to: '' @ str_of_path output_file)], None)
              | WriteFileNotFoundError \<Rightarrow>
                  ([Parse input_file, Write output_file xml_output,
                    PrintStderr (''Error: Input file '' @ [CHR 0x27] @ input_file @ [CHR 0x27] @ '' not found'')],
                   Some 1)
              | WriteException e \<Rightarrow>
                  ([Parse input_file, Write output_file xml_output,
                    PrintStderr (''Unexpected error: '' @ e)], Some 1))
      | ParseError e \<Rightarrow>
          ([Parse input_file, PrintStderr (''Error parsing XML file: '' @ e)], Some 1)
      | FileNotFoundError \<Rightarrow>
          ([Parse input_file,
            PrintStderr (''Error: Input file '' @ [CHR 0x27] @ input_file @ [CHR 0x27] @ '' not found'')],
           Some 1)
      | OtherException e \<Rightarrow>
          ([Parse input_file, PrintStderr (''Unexpected error: '' @ e)], Some 1))"

text \<open>What the run leaves on the error stream: \<^verbatim>\<open>print\<close> ends its text with a newline.\<close>

fun stderr_text :: "event list \<Rightarrow> string" where
  "stderr_text [] = []"
| "stderr_text (PrintStderr s # es) = s @ [CHR 0x0A] @ stderr_text es"
| "stderr_text (e # es) = stderr_text es"

section \<open>Example documents\<close>

text \<open>The scenario of the specification:
  \<^verbatim>\<open><Root><Category name="Z"/><Category name="A"/><Other/></Root>\<close>.\<close>

definition example_root :: Element where
  "example_root =
     Element ''Root'' [] None None
       [Element ''Category'' [(''name'', ''Z'')] None None [],
        Element ''Category'' [(''name'', ''A'')] None None [],
        Element ''Other'' [] None None []]"

text \<open>Two categories of the same name, told apart by their \<^verbatim>\<open>GUID\<close>, before a
  third of a smaller name.\<close>

definition example_ties :: Element where
  "example_ties =
     Element ''Root'' [] None None
       [Element ''Category'' [(''name'', ''X''), (''GUID'', ''1'')] None None [],
        Element ''Category'' [(''name'', ''X''), (''GUID'', ''2'')] None None [],
        Element ''Category'' [(''name'', ''A'')] None None []]"

text \<open>Inline text around a child:
  \<^verbatim>\<open><Note lang="en">see <b/> below</Note>\<close>, followed by a blank.\<close>

definition example_inline :: Element where
  "example_inline =
     Element ''Note'' [(''lang'', ''en'')] (Some ''see '') (Some '' '')
       [Element ''b'' [] None (Some '' below'') []]"

section \<open>Facts about normalization\<close>

lemma reorder_children_eq:
  "reorder_children cs =
     filter (\<lambda>c. \<not> is_sortable c) cs @ sort_key sort_key_for_element (filter is_sortable cs)"
  by (simp add: reorder_children_def comp_def)

lemma is_other_iff: "is_other c \<longleftrightarrow> \<not> is_sortable c"
  by (cases "get c ''name''"; cases "get c ''GUID''") (auto simp: is_other_def is_sortable_def)

lemma filter_is_other: "filter is_other cs = filter (\<lambda>c. \<not> is_sortable c) cs"
  by (rule filter_cong) (simp_all add: is_other_iff)

lemma mset_reorder_children: "mset (reorder_children cs) = mset cs"
  by (simp add: reorder_children_eq union_commute)

lemma children_sort_children_recursively:
  "children (sort_children_recursively p) =
     map sort_children_recursively (reorder_children (children p))"
  by (cases p) simp

lemma label_sort_children_recursively [simp]:
  "label (sort_children_recursively p) = label p"
  by (cases p) (simp add: label_def)

lemma is_sortable_label: "label a = label b \<Longrightarrow> is_sortable a = is_sortable b"
  by (simp add: label_def is_sortable_def get_def)

lemma sort_key_label: "label a = label b \<Longrightarrow> sort_key_for_element a = sort_key_for_element b"
  by (simp add: label_def sort_key_for_element_def get_default_def)

lemma is_sortable_sort_children_recursively [simp]:
  "is_sortable (sort_children_recursively p) = is_sortable p"
  by (rule is_sortable_label) simp

lemma sort_key_sort_children_recursively [simp]:
  "sort_key_for_element (sort_children_recursively p) = sort_key_for_element p"
  by (rule sort_key_label) simp

text \<open>Sorting commutes with a map that keeps the keys.\<close>

lemma insort_key_map_same_key:
  assumes "\<And>x. k (f x) = k x"
  shows "insort_key k (f a) (map f xs) = map f (insort_key k a xs)"
  by (induction xs) (simp_all add: assms)

lemma sort_key_map_same_key:
  assumes "\<And>x. k (f x) = k x"
  shows "sort_key k (map f xs) = map f (sort_key k xs)"
  by (induction xs) (simp_all add: insort_key_map_same_key [of k f, OF assms])

lemma reorder_children_map:
  assumes "\<And>x. tag (f x) = tag x" and "\<And>x. attrib (f x) = attrib x"
  shows "reorder_children (map f cs) = map f (reorder_children cs)"
proof -
  have s: "\<And>x. is_sortable (f x) = is_sortable x"
    by (simp add: is_sortable_def get_def assms)
  have k: "\<And>x. sort_key_for_element (f x) = sort_key_for_element x"
    by (simp add: sort_key_for_element_def get_default_def assms)
  show ?thesis
    by (simp add: reorder_children_eq filter_map comp_def s sort_key_map_same_key [of sort_key_for_element f, OF k])
qed

lemma tag_sort_children_recursively [simp]: "tag (sort_children_recursively p) = tag p"
  by (cases p) simp

lemma attrib_sort_children_recursively [simp]: "attrib (sort_children_recursively p) = attrib p"
  by (cases p) simp

lemma reorder_children_idem: "reorder_children (reorder_children cs) = reorder_children cs"
proof -
  let ?S = "sort_key sort_key_for_element (filter is_sortable cs)"
  have "sort_key sort_key_for_element ?S = ?S"
    by (rule sort_key_id_if_sorted) simp
  then show ?thesis
    by (simp add: reorder_children_eq filter_sort)
qed

lemma nodes_sort_children_recursively:
  "mset (nodes (sort_children_recursively t)) = image_mset sort_children_recursively (mset (nodes t))"
proof (induction t rule: sort_children_recursively.induct)
  case (1 tg at tx ta cs)
  have "mset (concat (map nodes (map sort_children_recursively (reorder_children cs))))
      = (\<Sum>c \<in># mset (reorder_children cs). mset (nodes (sort_children_recursively c)))"
    by (simp add: mset_concat comp_def flip: sum_mset_sum_list)
  also have "\<dots> = (\<Sum>c \<in># mset (reorder_children cs). image_mset sort_children_recursively (mset (nodes c)))"
    by (rule arg_cong [where f = sum_mset], rule image_mset_cong) (simp add: "1.IH")
  also have "\<dots> = (\<Sum>c \<in># mset cs. image_mset sort_children_recursively (mset (nodes c)))"
    by (simp add: mset_reorder_children)
  also have "\<dots> = image_mset sort_children_recursively (mset (concat (map nodes cs)))"
    by (induction cs) simp_all
  finally show ?case by simp
qed

lemma sort_children_recursively_in_nodes:
  assumes "p \<in> set (nodes t)"
  shows "sort_children_recursively p \<in> set (nodes (sort_children_recursively t))"
proof -
  have "sort_children_recursively p \<in># image_mset sort_children_recursively (mset (nodes t))"
    using assms by simp
  then have "sort_children_recursively p \<in># mset (nodes (sort_children_recursively t))"
    by (simp only: nodes_sort_children_recursively)
  then show ?thesis by simp
qed

lemma mset_children_sort_children_recursively:
  "mset (children (sort_children_recursively p)) =
     image_mset sort_children_recursively (mset (children p))"
  by (simp add: children_sort_children_recursively mset_reorder_children)

lemma labels_sort_children_recursively:
  "image_mset label (mset (nodes (sort_children_recursively t))) = image_mset label (mset (nodes t))"
  by (simp add: nodes_sort_children_recursively image_mset.compositionality comp_def)

lemma mset_edges:
  "mset (edges t) = (\<Sum>p \<in># mset (nodes t). image_mset (\<lambda>c. (label p, label c)) (mset (children p)))"
  by (simp add: edges_def mset_concat comp_def flip: sum_mset_sum_list)

lemma edges_sort_children_recursively:
  "mset (edges (sort_children_recursively t)) = mset (edges t)"
  by (simp add: mset_edges nodes_sort_children_recursively mset_children_sort_children_recursively
      image_mset.compositionality comp_def)

lemma filter_key_reorder_children:
  "filter (\<lambda>c. is_sortable c \<and> sort_key_for_element c = k) (reorder_children cs)
     = filter (\<lambda>c. is_sortable c \<and> sort_key_for_element c = k) cs"
proof -
  have "filter (\<lambda>c. is_sortable c \<and> sort_key_for_element c = k)
          (sort_key sort_key_for_element (filter is_sortable cs))
      = filter is_sortable (filter (\<lambda>c. sort_key_for_element c = k)
          (sort_key sort_key_for_element (filter is_sortable cs)))"
    by (simp add: conj_commute)
  also have "\<dots> = filter is_sortable (filter (\<lambda>c. sort_key_for_element c = k) (filter is_sortable cs))"
    by (simp only: sort_key_stable)
  also have "\<dots> = filter (\<lambda>c. is_sortable c \<and> sort_key_for_element c = k) cs"
    by (simp add: conj_commute)
  finally show ?thesis
    by (simp add: reorder_children_eq)
qed

section \<open>Normalization: the claims\<close>

text \<open>
  C2. Normalization is idempotent: normalizing a normalized tree gives the same tree,
  with the same tag, attributes, text, tail and child order at every node.
\<close>

theorem normalization_idempotent:
  "sort_children_recursively (sort_children_recursively t) = sort_children_recursively t"
proof (induction t rule: sort_children_recursively.induct)
  case (1 tg at tx ta cs)
  have "map sort_children_recursively
          (reorder_children (map sort_children_recursively (reorder_children cs)))
      = map sort_children_recursively
          (map sort_children_recursively (reorder_children (reorder_children cs)))"
    by (simp add: reorder_children_map)
  also have "\<dots> = map sort_children_recursively (map sort_children_recursively (reorder_children cs))"
    by (simp add: reorder_children_idem)
  also have "\<dots> = map sort_children_recursively (reorder_children cs)"
    using "1.IH" by simp
  finally show ?case by simp
qed

text \<open>
  C3. Let \<open>p\<close> be any node of the tree \<open>t\<close>. After normalization the node is in the
  normalized tree, and its children are the other children (those the partition test
  rejects: the tag is not a sortable tag, or \<^verbatim>\<open>name\<close> and \<^verbatim>\<open>GUID\<close> are both
  absent or empty), in their original order, followed by the sortable ones in the
  order of their sort keys.
\<close>

theorem others_before_sorted_sortables:
  assumes "p \<in> set (nodes t)"
  shows "sort_children_recursively p \<in> set (nodes (sort_children_recursively t)) \<and>
    (\<exists>os ss. children (sort_children_recursively p) = os @ ss \<and>
       os = map sort_children_recursively (filter is_other (children p)) \<and>
       mset ss = image_mset sort_children_recursively (mset (filter is_sortable (children p))) \<and>
       (\<forall>c \<in> set os. is_other c \<and> \<not> is_sortable c) \<and>
       (\<forall>c \<in> set ss. is_sortable c \<and> \<not> is_other c) \<and>
       sorted (map sort_key_for_element ss))"
proof
  show "sort_children_recursively p \<in> set (nodes (sort_children_recursively t))"
    using assms by (rule sort_children_recursively_in_nodes)
next
  let ?os = "map sort_children_recursively (filter is_other (children p))"
  let ?ss = "map sort_children_recursively
               (sort_key sort_key_for_element (filter is_sortable (children p)))"
  have 1: "children (sort_children_recursively p) = ?os @ ?ss"
    by (simp add: children_sort_children_recursively reorder_children_eq filter_is_other)
  have 2: "mset ?ss = image_mset sort_children_recursively (mset (filter is_sortable (children p)))"
    by simp
  have 3: "\<forall>c \<in> set ?os. is_other c \<and> \<not> is_sortable c"
    by (auto simp: is_other_iff)
  have 4: "\<forall>c \<in> set ?ss. is_sortable c \<and> \<not> is_other c"
    by (auto simp: is_other_iff)
  have 5: "sorted (map sort_key_for_element ?ss)"
    by (simp add: comp_def)
  from 1 2 3 4 5
  show "\<exists>os ss. children (sort_children_recursively p) = os @ ss \<and>
       os = ?os \<and>
       mset ss = image_mset sort_children_recursively (mset (filter is_sortable (children p))) \<and>
       (\<forall>c \<in> set os. is_other c \<and> \<not> is_sortable c) \<and>
       (\<forall>c \<in> set ss. is_sortable c \<and> \<not> is_other c) \<and>
       sorted (map sort_key_for_element ss)"
    by blast
qed

theorem others_before_sorted_sortables_witness:
  "example_root \<in> set (nodes example_root) \<and>
   children (sort_children_recursively example_root) =
     [Element ''Other'' [] None None [],
      Element ''Category'' [(''name'', ''A'')] None None [],
      Element ''Category'' [(''name'', ''Z'')] None None []]"
  using others_before_sorted_sortables [of example_root example_root]
  by (simp add: example_root_def reorder_children_eq is_sortable_def sortable_tags_def get_def
      sort_key_for_element_def get_default_def)

text \<open>
  C4. The sort is stable. Let \<open>p\<close> be any node of the tree \<open>t\<close> and \<open>k\<close> a key:
  the sortable children of \<open>p\<close> with the key \<open>k\<close> stand, after normalization, in the
  order they had before.
\<close>

theorem sortable_ties_keep_order:
  assumes "p \<in> set (nodes t)"
  shows "sort_children_recursively p \<in> set (nodes (sort_children_recursively t)) \<and>
    filter (\<lambda>c. is_sortable c \<and> sort_key_for_element c = k) (children (sort_children_recursively p))
      = map sort_children_recursively
          (filter (\<lambda>c. is_sortable c \<and> sort_key_for_element c = k) (children p))"
proof
  show "sort_children_recursively p \<in> set (nodes (sort_children_recursively t))"
    using assms by (rule sort_children_recursively_in_nodes)
next
  have "filter (\<lambda>c. is_sortable c \<and> sort_key_for_element c = k) (children (sort_children_recursively p))
      = map sort_children_recursively
          (filter (\<lambda>c. is_sortable c \<and> sort_key_for_element c = k) (reorder_children (children p)))"
    by (simp add: children_sort_children_recursively filter_map comp_def)
  then show "filter (\<lambda>c. is_sortable c \<and> sort_key_for_element c = k) (children (sort_children_recursively p))
      = map sort_children_recursively
          (filter (\<lambda>c. is_sortable c \<and> sort_key_for_element c = k) (children p))"
    by (simp only: filter_key_reorder_children)
qed

theorem sortable_ties_keep_order_witness:
  "example_ties \<in> set (nodes example_ties) \<and>
   children (sort_children_recursively example_ties) =
     [Element ''Category'' [(''name'', ''A'')] None None [],
      Element ''Category'' [(''name'', ''X''), (''GUID'', ''1'')] None None [],
      Element ''Category'' [(''name'', ''X''), (''GUID'', ''2'')] None None []] \<and>
   filter (\<lambda>c. is_sortable c \<and> sort_key_for_element c = ''X'')
       (children (sort_children_recursively example_ties)) =
     [Element ''Category'' [(''name'', ''X''), (''GUID'', ''1'')] None None [],
      Element ''Category'' [(''name'', ''X''), (''GUID'', ''2'')] None None []]"
  using sortable_ties_keep_order [of example_ties example_ties "''X''"]
  by (simp add: example_ties_def reorder_children_eq is_sortable_def sortable_tags_def get_def
      sort_key_for_element_def get_default_def)

text \<open>
  C9. Normalization permutes children only. Let \<open>p\<close> be any node of the tree \<open>t\<close>.
  The reordering of lines 37 to 60 leaves a permutation of the children of \<open>p\<close>; after
  the recursion the children are, as a multiset, the normalized children, as many as
  before; the nodes of the normalized tree are the normalized nodes of the tree, each
  with the fields it had; and every node has the parent it had.
\<close>

theorem normalization_permutes_children:
  assumes "p \<in> set (nodes t)"
  shows "sort_children_recursively p \<in> set (nodes (sort_children_recursively t)) \<and>
    mset (reorder_children (children p)) = mset (children p) \<and>
    mset (children (sort_children_recursively p)) =
      image_mset sort_children_recursively (mset (children p)) \<and>
    length (children (sort_children_recursively p)) = length (children p) \<and>
    mset (nodes (sort_children_recursively t)) =
      image_mset sort_children_recursively (mset (nodes t)) \<and>
    image_mset label (mset (nodes (sort_children_recursively t))) = image_mset label (mset (nodes t)) \<and>
    mset (edges (sort_children_recursively t)) = mset (edges t)"
proof -
  have "length (children (sort_children_recursively p)) = size (mset (children (sort_children_recursively p)))"
    by simp
  also have "\<dots> = length (children p)"
    by (simp only: mset_children_sort_children_recursively size_image_mset size_mset)
  finally have len: "length (children (sort_children_recursively p)) = length (children p)" .
  show ?thesis
    using sort_children_recursively_in_nodes [OF assms] len
    by (simp only: mset_reorder_children mset_children_sort_children_recursively
        nodes_sort_children_recursively [symmetric] labels_sort_children_recursively
        edges_sort_children_recursively simp_thms)
qed

theorem normalization_permutes_children_witness:
  "example_root \<in> set (nodes example_root) \<and>
   mset (children (sort_children_recursively example_root)) =
     image_mset sort_children_recursively (mset (children example_root)) \<and>
   length (children (sort_children_recursively example_root)) = 3"
  using normalization_permutes_children [of example_root example_root]
  by (simp add: example_root_def)

section \<open>Facts about formatting\<close>

lemma strip_empty_iff: "strip s = [] \<longleftrightarrow> (\<forall>c \<in> set s. is_space c)"
proof
  assume "strip s = []"
  then have "dropWhile is_space (rev (dropWhile is_space s)) = []"
    by (simp add: strip_def)
  then have d: "\<forall>c \<in> set (dropWhile is_space s). is_space c"
    by (simp add: dropWhile_eq_Nil_conv)
  have t: "\<forall>c \<in> set (takeWhile is_space s). is_space c"
    by (auto dest: set_takeWhileD)
  have "set s = set (takeWhile is_space s) \<union> set (dropWhile is_space s)"
    by (simp only: set_append [symmetric] takeWhile_dropWhile_id)
  with d t show "\<forall>c \<in> set s. is_space c" by blast
next
  assume "\<forall>c \<in> set s. is_space c"
  then show "strip s = []" by (auto simp: strip_def dest: set_dropWhileD)
qed

lemma blank_Some_iff: "blank (Some s) \<longleftrightarrow> (\<forall>c \<in> set s. is_space c)"
  by (cases s) (auto simp: strip_empty_iff)

declare blank.simps(2) [simp del]

lemma is_space_newline [simp]: "is_space (CHR 0x0A)"
  by (simp add: is_space_def)

lemma is_space_tab [simp]: "is_space (CHR 0x09)"
  by (simp add: is_space_def)

lemma blank_indent [simp]:
  "blank (Some (CHR 0x0A # indent_str level))"
  "blank (Some (CHR 0x0A # indent_str level @ [CHR 0x09]))"
  by (auto simp: blank_Some_iff indent_str_def)

lemma keep_indent [simp]:
  "keep (Some (CHR 0x0A # indent_str level)) = None"
  "keep (Some (CHR 0x0A # indent_str level @ [CHR 0x09])) = None"
  using blank_indent [of level] by (simp_all only: keep.simps if_True)

lemma tag_indent_xml [simp]: "tag (indent_xml u level) = tag u"
  by (cases u) (simp add: Let_def)

lemma attrib_indent_xml [simp]: "attrib (indent_xml u level) = attrib u"
  by (cases u) (simp add: Let_def)

lemma etail_indent_xml:
  "etail (indent_xml u level) =
     (if blank (etail u) \<and> (children u \<noteq> [] \<or> level \<noteq> 0)
      then Some ([CHR 0x0A] @ indent_str level) else etail u)"
  by (cases u) (simp add: Let_def)

lemma etext_indent_xml:
  "etext (indent_xml u level) =
     (if blank (etext u) \<and> children u \<noteq> []
      then Some (CHR 0x0A # indent_str level @ [CHR 0x09]) else etext u)"
  by (cases u) (simp add: Let_def)

lemma content_set_tail:
  assumes "blank (etail c)" and "blank v"
  shows "content (set_tail c v) = content c"
  using assms by (cases c) simp

lemma map_butlast_snoc:
  assumes "xs \<noteq> []" and "f y = f (last xs)"
  shows "map f (butlast xs @ [y]) = map f xs"
proof -
  have "butlast xs @ [last xs] = xs"
    using assms(1) by simp
  then have "map f (butlast xs @ [last xs]) = map f xs"
    by (rule arg_cong)
  then show ?thesis
    using assms(2) by simp
qed

lemma content_indent_xml: "content (indent_xml u level) = content u"
proof (induction u level rule: indent_xml.induct)
  case (1 tg at tx ta cs level)
  show ?case
  proof (cases "cs = []")
    case True
    then show ?thesis by simp
  next
    case False
    let ?cs' = "map (\<lambda>child. indent_xml child (level + 1)) cs"
    let ?child' = "if blank (etail (last ?cs'))
                   then set_tail (last ?cs') (Some ([CHR 0x0A] @ indent_str level)) else last ?cs'"
    have last: "content ?child' = content (last ?cs')"
      by (simp add: content_set_tail)
    have "map content (butlast ?cs' @ [?child']) = map content ?cs'"
      using False last by (intro map_butlast_snoc) simp_all
    also have "\<dots> = map content cs"
      using "1.IH" [OF False] by simp
    finally have kids: "map content (butlast ?cs' @ [?child']) = map content cs" .
    show ?thesis
      using False kids by (simp add: Let_def split: if_splits)
  qed
qed

lemma tag_content [simp]: "tag (content u) = tag u"
  by (cases u) simp

lemma attrib_content [simp]: "attrib (content u) = attrib u"
  by (cases u) simp

lemma content_sort_children_recursively:
  "content (sort_children_recursively t) = sort_children_recursively (content t)"
proof (induction t rule: sort_children_recursively.induct)
  case (1 tg at tx ta cs)
  have "map content (map sort_children_recursively (reorder_children cs))
      = map sort_children_recursively (map content (reorder_children cs))"
    using "1.IH" by simp
  also have "\<dots> = map sort_children_recursively (reorder_children (map content cs))"
    by (simp add: reorder_children_map)
  finally show ?case by (simp del: keep.simps)
qed

section \<open>Formatting: the claims\<close>

text \<open>
  C5. Neither normalization nor formatting changes content. Formatting, at any level,
  leaves the tree as it is once the text and tail fields that are empty or only
  whitespace are erased: the shape, every tag, every attribute list and every text
  or tail with a character that is not whitespace are the same, so only empty or
  whitespace fields are rewritten; in particular a text or a tail of the formatted
  node that has such a character is kept, and so are its tag and its attributes.
  Normalization keeps the fields of every node. Hence the two in sequence give, up to
  empty and whitespace fields, the normalized input, whose nodes carry the fields the
  nodes of the input carry.
\<close>

theorem no_content_mutation:
  "content (indent_xml u level) = content u \<and>
   (\<not> blank (etext u) \<longrightarrow> etext (indent_xml u level) = etext u) \<and>
   (\<not> blank (etail u) \<longrightarrow> etail (indent_xml u level) = etail u) \<and>
   tag (indent_xml u level) = tag u \<and> attrib (indent_xml u level) = attrib u \<and>
   image_mset label (mset (nodes (sort_children_recursively t))) = image_mset label (mset (nodes t)) \<and>
   content (indent_xml (sort_children_recursively t) 0) = sort_children_recursively (content t) \<and>
   image_mset label (mset (nodes (content (indent_xml (sort_children_recursively t) 0)))) =
     image_mset label (mset (nodes (content t)))"
  by (simp add: content_indent_xml content_sort_children_recursively
      labels_sort_children_recursively etext_indent_xml etail_indent_xml del: content.simps)

theorem no_content_mutation_witness:
  "\<not> blank (etext example_inline) \<and> blank (etail example_inline) \<and>
   indent_xml example_inline 1 =
     Element ''Note'' [(''lang'', ''en'')] (Some ''see '') (Some [CHR 0x0A, CHR 0x09])
       [Element ''b'' [] None (Some '' below'') []] \<and>
   content (indent_xml example_inline 1) = content example_inline"
  using no_content_mutation [of example_inline 1 example_inline]
  by (simp add: example_inline_def Let_def indent_str_def blank.simps(2) strip_def is_space_def)

text \<open>
  C10. A root without children is left exactly as it is by \<^verbatim>\<open>indent_xml\<close> at level 0:
  the guard \<^verbatim>\<open>level and ...\<close> of the childless branch fails, so neither text nor
  tail is assigned.
\<close>

theorem childless_root_unchanged:
  "indent_xml (Element tg at tx ta []) 0 = Element tg at tx ta []"
  by simp

text \<open>
  C6. Let a node with at least one child be formatted at some level. Its text, if empty
  or only whitespace, becomes a newline and level + 1 tabs. Its children are formatted
  at level + 1, and then the tail of the last one, if empty or only whitespace by
  then, becomes a newline and one tab per level of the node; this is the case exactly
  when that tail was empty or only whitespace before formatting.
\<close>

theorem last_child_tail_closes_parent:
  assumes "cs \<noteq> []"
  shows "etext (indent_xml (Element tg at tx ta cs) level) =
      (if blank tx then Some (CHR 0x0A # replicate (level + 1) (CHR 0x09)) else tx) \<and>
    children (indent_xml (Element tg at tx ta cs) level) =
      map (\<lambda>child. indent_xml child (level + 1)) (butlast cs) @
      [if blank (etail (indent_xml (last cs) (level + 1)))
       then set_tail (indent_xml (last cs) (level + 1)) (Some (CHR 0x0A # replicate level (CHR 0x09)))
       else indent_xml (last cs) (level + 1)] \<and>
    etail (last (children (indent_xml (Element tg at tx ta cs) level))) =
      (if blank (etail (last cs)) then Some (CHR 0x0A # replicate level (CHR 0x09))
       else etail (last cs))"
proof -
  let ?c = "indent_xml (last cs) (level + 1)"
  let ?nl = "Some (CHR 0x0A # replicate level (CHR 0x09))"
  have own: "etext (indent_xml (Element tg at tx ta cs) level) =
      (if blank tx then Some (CHR 0x0A # replicate (level + 1) (CHR 0x09)) else tx)"
    using assms by (simp add: Let_def indent_str_def replicate_append_same)
  have kids: "children (indent_xml (Element tg at tx ta cs) level) =
      map (\<lambda>child. indent_xml child (level + 1)) (butlast cs) @
      [if blank (etail ?c) then set_tail ?c ?nl else ?c]"
    using assms by (simp add: Let_def indent_str_def last_map map_butlast)
  have "etail (if blank (etail ?c) then set_tail ?c ?nl else ?c) =
      (if blank (etail ?c) then ?nl else etail ?c)"
    by (cases ?c) simp
  also have "\<dots> = (if blank (etail (last cs)) then ?nl else etail (last cs))"
    by (simp add: etail_indent_xml)
  finally have "etail (last (children (indent_xml (Element tg at tx ta cs) level))) =
      (if blank (etail (last cs)) then ?nl else etail (last cs))"
    by (simp only: kids last_snoc)
  with own kids show ?thesis by (simp only: simp_thms)
qed

theorem last_child_tail_closes_parent_witness:
  "[Element ''Item'' [] None None []] \<noteq> [] \<and>
   indent_xml (Element ''Root'' [] None None [Element ''Item'' [] None None []]) 0 =
     Element ''Root'' [] (Some [CHR 0x0A, CHR 0x09]) (Some [CHR 0x0A])
       [Element ''Item'' [] None (Some [CHR 0x0A]) []]"
  using last_child_tail_closes_parent
    [of "[Element ''Item'' [] None None []]" "''Root''" "[]" None None 0]
  by (simp add: Let_def indent_str_def blank.simps(2) strip_def is_space_def)

text \<open>
  C7, against the serializer modelled from the specification. The output is the
  serialization of the formatted root, which begins with \<^verbatim>\<open><\<close> and the root's tag;
  formatting leaves the tag alone. A tag of a parsed document is an XML name and does
  not begin with \<^verbatim>\<open>?xml\<close>, so the output does not begin with \<^verbatim>\<open><?xml\<close>.
\<close>

theorem output_has_no_xml_declaration:
  assumes "\<not> prefix ''?xml'' (tag root)"
  shows "\<not> prefix ''<?xml'' (format_xml_output root)"
proof
  assume p: "prefix ''<?xml'' (format_xml_output root)"
  obtain tg at tx ta cs where r: "indent_xml root 0 = Element tg at tx ta cs"
    by (cases "indent_xml root 0") blast
  have tg: "tg = tag root"
    using tag_indent_xml [of root 0] by (simp add: r)
  define rest where "rest = attributes_text at @
     (if cs = [] \<and> \<not> truthy tx then '' />''
      else ''>'' @ verbatim tx @ concat (map tostring cs) @ ''</'' @ tg @ ''>'') @ verbatim ta"
  have out: "format_xml_output root = CHR ''<'' # tg @ rest"
    by (simp add: format_xml_output_def r rest_def)
  have rest: "rest \<noteq> [] \<and> (hd rest = CHR '' '' \<or> hd rest = CHR ''>'')"
  proof (cases at)
    case Nil
    then show ?thesis by (simp add: rest_def attributes_text_def)
  next
    case (Cons a as)
    then show ?thesis by (cases a) (simp add: rest_def attributes_text_def)
  qed
  from p have "prefix ''?xml'' (tg @ rest)"
    by (simp add: out)
  then obtain us where us: "''?xml'' = tg @ us" and pr: "prefix us rest"
    using assms tg by (auto simp: prefix_append)
  have "us \<noteq> []"
    using us assms tg by auto
  then have "hd us = hd rest"
    using pr rest by (cases us; cases rest) auto
  moreover have "hd us \<in> {CHR ''?'', CHR ''x'', CHR ''m'', CHR ''l''}"
    using us \<open>us \<noteq> []\<close>
    by (auto simp: append_eq_Cons_conv Cons_eq_append_conv)
  ultimately show False
    using rest by auto
qed

theorem output_has_no_xml_declaration_witness:
  "\<not> prefix ''?xml'' (tag example_root) \<and>
   format_xml_output example_root =
     ''<Root>'' @ [CHR 0x0A, CHR 0x09] @
     ''<Category name='' @ [CHR 0x22] @ ''Z'' @ [CHR 0x22] @ '' />'' @ [CHR 0x0A, CHR 0x09] @
     ''<Category name='' @ [CHR 0x22] @ ''A'' @ [CHR 0x22] @ '' />'' @ [CHR 0x0A, CHR 0x09] @
     ''<Other />'' @ [CHR 0x0A] @ ''</Root>'' @ [CHR 0x0A] \<and>
   \<not> prefix ''<?xml'' (format_xml_output example_root)"
  using output_has_no_xml_declaration [of example_root]
  by (simp add: example_root_def format_xml_output_def attributes_text_def Let_def
      indent_str_def blank.simps(2) strip_def is_space_def)

section \<open>Processing a file: the claim\<close>

text \<open>
  C8. When the parser rejects the input with a diagnostic \<open>e\<close>, the run is: one call
  of the parser, one \<^verbatim>\<open>print\<close> of \<^verbatim>\<open>Error parsing XML file:\<close> and the diagnostic on
  the error stream, and \<^verbatim>\<open>sys.exit(1)\<close>. The parser is not called again, nothing is
  written to the output file and nothing is printed on the standard output. The error
  stream holds the message and one newline after it.
\<close>

theorem parse_failure_exits_1:
  assumes "parse input_file = ParseError e"
  shows "process_settings_file parse write input_file output_file =
      ([Parse input_file, PrintStderr (''Error parsing XML file: '' @ e)], Some 1) \<and>
    stderr_text (fst (process_settings_file parse write input_file output_file)) =
      ''Error parsing XML file: '' @ e @ [CHR 0x0A]"
  using assms by (simp add: process_settings_file_def)

theorem parse_failure_exits_1_witness:
  "(\<lambda>f. ParseError ''syntax error: line 1, column 0'') ''in.vssettings'' =
     ParseError ''syntax error: line 1, column 0'' \<and>
   process_settings_file (\<lambda>f. ParseError ''syntax error: line 1, column 0'') (\<lambda>f d. Written)
       ''in.vssettings'' (Some ''out.xml'') =
     ([Parse ''in.vssettings'',
       PrintStderr ''Error parsing XML file: syntax error: line 1, column 0''], Some 1)"
  using parse_failure_exits_1
    [of "\<lambda>f. ParseError ''syntax error: line 1, column 0''" "''in.vssettings''"
        "''syntax error: line 1, column 0''" "\<lambda>f d. Written" "Some ''out.xml''"]
  by simp

section \<open>The sort key of a node\<close>

text \<open>
  C1, as the code has it. The key is the value of the \<^verbatim>\<open>name\<close> attribute whenever
  that attribute is present, also when its value is empty; only a node without a
  \<^verbatim>\<open>name\<close> attribute takes the value of \<^verbatim>\<open>GUID\<close>, and a node with neither has
  the empty key. So the key is the one the specification describes except on a node
  whose \<^verbatim>\<open>name\<close> is present and empty, where it is the empty string whatever
  \<^verbatim>\<open>GUID\<close> holds.
\<close>

theorem sort_key_for_element_name_first:
  "sort_key_for_element n =
     (if get n ''name'' = Some '''' then '''' else spec_sort_key n)"
  by (cases "map_of (attrib n) ''name''"; cases "map_of (attrib n) ''GUID''")
     (auto simp: sort_key_for_element_def spec_sort_key_def get_def get_default_def)

text \<open>
  C1 as stated fails: a node with \<^verbatim>\<open>name=""\<close> and \<^verbatim>\<open>GUID="A"\<close> has the empty key,
  not \<^verbatim>\<open>"A"\<close>, which is the key the specification's wording gives.
\<close>

theorem sort_key_for_element_empty_name_counterexample:
  "sort_key_for_element (Element ''Category'' [(''name'', ''''), (''GUID'', ''A'')] None None []) = ''''
   \<and> spec_sort_key (Element ''Category'' [(''name'', ''''), (''GUID'', ''A'')] None None []) = ''A''"
  by (simp add: sort_key_for_element_def spec_sort_key_def get_def get_default_def)

end
